theory Spec2Isabelle
  imports Main "HOL-Library.Sublist"
begin

section \<open>JavaScript string and array primitives used by the sources\<close>

text \<open>
  Strings are sequences of code units, modelled as \<^typ>\<open>string\<close>. The sources use
  \<open>String.prototype.split\<close>, \<open>Array.prototype.join\<close>, \<open>endsWith\<close>, \<open>includes\<close>,
  \<open>slice(0, -1)\<close> (which is \<^const>\<open>butlast\<close> on strings and on arrays) and \<open>toLowerCase\<close>.
\<close>

text \<open>
  \<open>s.split(sep)\<close>: scan from the left, cutting at each non-overlapping occurrence of
  \<open>sep\<close>; \<open>cur\<close> is the piece being collected. An empty separator cuts between all
  code units (and gives no piece at all for the empty string).
\<close>

function splitAcc :: "string \<Rightarrow> string \<Rightarrow> string \<Rightarrow> string list" where
  "splitAcc sep cur s =
     (if s = [] then [cur]
      else if sep \<noteq> [] \<and> prefix sep s then cur # splitAcc sep [] (drop (length sep) s)
      else splitAcc sep (cur @ [hd s]) (tl s))"
  by pat_completeness auto
termination
  by (relation "measure (\<lambda>(sep, cur, s). length s)") auto

declare splitAcc.simps [simp del]

definition split_js :: "string \<Rightarrow> string \<Rightarrow> string list" where
  "split_js s sep = (if sep = [] then map (\<lambda>c. [c]) s else splitAcc sep [] s)"

text \<open>\<open>xs.join(sep)\<close>\<close>

fun join_js :: "string list \<Rightarrow> string \<Rightarrow> string" where
  "join_js [] sep = []"
| "join_js [x] sep = x"
| "join_js (x # y # ys) sep = x @ sep @ join_js (y # ys) sep"

text \<open>\<open>s.endsWith(suf)\<close>\<close>

definition endsWith :: "string \<Rightarrow> string \<Rightarrow> bool" where
  "endsWith s suf = (length suf \<le> length s \<and> drop (length s - length suf) s = suf)"

text \<open>\<open>s.includes(sub)\<close>\<close>

fun includes_js :: "string \<Rightarrow> string \<Rightarrow> bool" where
  "includes_js [] sub = (sub = [])"
| "includes_js (c # cs) sub = (prefix sub (c # cs) \<or> includes_js cs sub)"

text \<open>
  \<open>s.toLowerCase()\<close> on the ASCII range: the letters \<open>A\<close> to \<open>Z\<close> (codes 65 to 90) move
  to \<open>a\<close> to \<open>z\<close>, every other code unit stays. Outside ASCII only the Kelvin sign and the
  dotted capital I lower to ASCII letters (\<open>k\<close> and \<open>i\<close>), which occur in neither of the
  words the sources search the result for.
\<close>

definition toLowerChar :: "char \<Rightarrow> char" where
  "toLowerChar c =
     (let n = (of_char c :: nat) in if 65 \<le> n \<and> n \<le> 90 then char_of (n + 32) else c)"

definition toLowerCase :: "string \<Rightarrow> string" where
  "toLowerCase s = map toLowerChar s"

text \<open>
  A thrown value: an instance of \<open>Error\<close> with its message, or any other value
  (the plugins reject with plain strings).
\<close>

datatype js_error = Error string | Thrown string


section \<open>The unmount protocol\<close>

text \<open>The result of \<open>command.execute()\<close>.\<close>

record cmd_output =
  code :: int
  stdout :: string
  stderr :: string

text \<open>
  The world outside \<open>unmount\<close>: what the \<open>n\<close>-th execution of a command prints and
  returns, given the program and its arguments, and what the user answers to the
  \<open>m\<close>-th confirmation dialog, given its message.
\<close>

record unmount_env =
  execute :: "nat \<Rightarrow> string \<Rightarrow> string list \<Rightarrow> cmd_output"
  ask :: "nat \<Rightarrow> string \<Rightarrow> bool"

definition umountArgs :: "string \<Rightarrow> bool \<Rightarrow> string list" where
  "umountArgs mountPoint force = [if force then ''-f'' else '''', mountPoint]"

definition busyQuestion :: string where
  "busyQuestion = ''This resource is busy, do you wish to force unmount?''"

text \<open>
  \<open>unmount(mountPoint, force)\<close>. \<open>n\<close> commands have been executed and \<open>m\<close> dialogs shown
  before the call; the result carries both counters after it. The promise resolves
  (\<open>Inr ()\<close>) or rejects (\<open>Inl\<close>); a call that recurses for ever has no result (\<open>None\<close>).
\<close>

partial_function (option) unmount ::
  "unmount_env \<Rightarrow> nat \<Rightarrow> nat \<Rightarrow> string \<Rightarrow> bool \<Rightarrow> ((js_error + unit) \<times> nat \<times> nat) option"
where
  "unmount env n m mountPoint force =
     (let output = execute env n ''umount'' (umountArgs mountPoint force) in
      if code output \<noteq> 0 then
        if includes_js (toLowerCase (stderr output)) ''busy'' then
          if ask env m busyQuestion then unmount env (Suc n) (Suc m) mountPoint True
          else Some (Inl (Error (stderr output)), Suc n, Suc m)
        else if includes_js (toLowerCase (stderr output)) ''not currently mounted'' then
          Some (Inr (), Suc n, m)
        else Some (Inl (Error (stderr output)), Suc n, m)
      else Some (Inr (), Suc n, m))"


declare unmount.simps [code]


section \<open>The path fields: suggestions and the folder picker\<close>

subsection \<open>Data\<close>

text \<open>The two fields, \<open>'source' | 'dest'\<close>.\<close>

datatype field = Source | Dest

text \<open>An element of the array \<open>readDir\<close> resolves to (the fields the component reads).\<close>

record dir_entry =
  name :: string
  isDirectory :: bool
  isSymlink :: bool

text \<open>An element of the array \<open>listPath\<close> resolves to: its \<open>IsDir\<close> and \<open>Path\<close>.\<close>

record list_item =
  item_IsDir :: bool
  item_Path :: string

text \<open>The options object passed to \<open>listPath\<close>.\<close>

record list_options =
  noModTime :: bool
  noMimeType :: bool

text \<open>A suggestion, as kept in the component's state.\<close>

record suggestion =
  IsDir :: bool
  Name :: string
  Path :: string

text \<open>
  The state the component works on: the two path props (with their setters), the three
  \<open>useState\<close> cells, each with one slot per field, and the window lock.
\<close>

record ui_state =
  sourcePath :: string
  destPath :: string
  suggestions :: "field \<Rightarrow> suggestion list"
  isLoading :: "field \<Rightarrow> bool"
  error :: "field \<Rightarrow> string option"
  windowsLocked :: bool

text \<open>
  What \<open>fetchSuggestions\<close> calls outside the component: \<open>platform()\<close>, \<open>readDir\<close> and
  \<open>listPath\<close>; a rejected promise is \<open>Inl\<close>.
\<close>

record fs_env =
  platform :: string
  readDir :: "string \<Rightarrow> js_error + dir_entry list"
  listPath :: "string \<Rightarrow> string \<Rightarrow> list_options \<Rightarrow> js_error + list_item list"

text \<open>
  What \<open>handleBrowse\<close> calls outside the component: whether \<open>lockWindows()\<close> and
  \<open>unlockWindows()\<close> resolve, and what the folder picker \<open>open\<close> resolves to for a
  \<open>defaultPath\<close> (\<open>None\<close> is \<open>null\<close>, a cancelled dialog).
\<close>

record dialog_env =
  lockWindows :: "js_error + unit"
  openDialog :: "string \<Rightarrow> js_error + string option"
  unlockWindows :: "js_error + unit"

subsection \<open>State setters\<close>

text \<open>\<open>setX((prev) => ({ ...prev, [field]: v }))\<close>, and the props' setters.\<close>

definition setSuggestions :: "field \<Rightarrow> suggestion list \<Rightarrow> ui_state \<Rightarrow> ui_state" where
  "setSuggestions field v st = st\<lparr>suggestions := (suggestions st)(field := v)\<rparr>"

definition setIsLoading :: "field \<Rightarrow> bool \<Rightarrow> ui_state \<Rightarrow> ui_state" where
  "setIsLoading field v st = st\<lparr>isLoading := (isLoading st)(field := v)\<rparr>"

definition setError :: "field \<Rightarrow> string option \<Rightarrow> ui_state \<Rightarrow> ui_state" where
  "setError field v st = st\<lparr>error := (error st)(field := v)\<rparr>"

definition setSourcePath :: "string \<Rightarrow> ui_state \<Rightarrow> ui_state" where
  "setSourcePath v st = st\<lparr>sourcePath := v\<rparr>"

definition setDestPath :: "string \<Rightarrow> ui_state \<Rightarrow> ui_state" where
  "setDestPath v st = st\<lparr>destPath := v\<rparr>"

text \<open>
  Modelled from the spec: \<open>lockWindows\<close> and \<open>unlockWindows\<close> of \<open>lib/window\<close>, which is
  not among the sources; the spec describes them as an opaque mutual-exclusion
  primitive, so acquiring sets the flag and releasing clears it.
\<close>

definition lockAcquired :: "ui_state \<Rightarrow> ui_state" where
  "lockAcquired st = st\<lparr>windowsLocked := True\<rparr>"

definition lockReleased :: "ui_state \<Rightarrow> ui_state" where
  "lockReleased st = st\<lparr>windowsLocked := False\<rparr>"

subsection \<open>fetchSuggestions\<close>

text \<open>
  Modelled from the spec: \<open>isRemotePath\<close> of \<open>lib/fs\<close>, which is not among the sources;
  by the spec a path is remote when it contains the separator sequence \<open>:/\<close>.
\<close>

definition isRemotePath :: "string \<Rightarrow> bool" where
  "isRemotePath path = includes_js path '':/''"

definition slashSymbol :: "string \<Rightarrow> string" where
  "slashSymbol plat = (if plat = ''windows'' then [CHR 0x5C] else ''/'')"

definition listOptions :: list_options where
  "listOptions = \<lparr>noModTime = True, noMimeType = True\<rparr>"

text \<open>The entry shown for a remote when the path is empty.\<close>

definition remoteItem :: "string \<Rightarrow> suggestion" where
  "remoteItem remote = \<lparr>IsDir = True, Name = remote @ '':/'', Path = remote @ '':/''\<rparr>"

text \<open>\<open>path.split(slashSymbol).slice(0, -1).join(slashSymbol)\<close>\<close>

definition parentPath :: "string \<Rightarrow> string \<Rightarrow> string" where
  "parentPath path slash = join_js (butlast (split_js path slash)) slash"

text \<open>From \<open>extraSlash\<close> to \<open>setSuggestions\<close> in the local branch.\<close>

definition localSuggestion :: "string \<Rightarrow> string \<Rightarrow> dir_entry \<Rightarrow> suggestion" where
  "localSuggestion cleanedPath extraSlash entry =
     \<lparr>IsDir = isDirectory entry, Name = name entry,
      Path = cleanedPath @ extraSlash @ name entry\<rparr>"

definition localDone :: "string \<Rightarrow> field \<Rightarrow> string \<Rightarrow> dir_entry list \<Rightarrow> ui_state \<Rightarrow> ui_state" where
  "localDone slash field cleanedPath localEntries st =
     (let extraSlash = (if endsWith cleanedPath slash then [] else slash);
          localSuggestions =
            map (localSuggestion cleanedPath extraSlash)
              (filter (\<lambda>entry. \<not> isSymlink entry) localEntries)
      in setSuggestions field localSuggestions st)"

text \<open>
  From \<open>path.split(':/')\<close> to the trailing-slash strip in the remote branch: the remote
  and the remote path, or the error thrown when the remote is empty.
\<close>

definition splitRemote :: "string \<Rightarrow> js_error + (string \<times> string)" where
  "splitRemote path =
     (case split_js path '':/'' of
        [] \<Rightarrow> Inl (Error ''Invalid remote path format'')
      | remote # pathParts \<Rightarrow>
          if remote = [] then Inl (Error ''Invalid remote path format'')
          else
            (let remotePath = join_js pathParts ''/'' in
             Inr (remote, if endsWith remotePath ''/'' then butlast remotePath else remotePath)))"

definition remoteSuggestion :: "string \<Rightarrow> list_item \<Rightarrow> suggestion" where
  "remoteSuggestion remote item =
     \<lparr>IsDir = item_IsDir item, Name = item_Path item, Path = remote @ '':/'' @ item_Path item\<rparr>"

definition remoteDone :: "field \<Rightarrow> string \<Rightarrow> list_item list \<Rightarrow> ui_state \<Rightarrow> ui_state" where
  "remoteDone field remote items st = setSuggestions field (map (remoteSuggestion remote) items) st"

text \<open>The outer \<open>catch\<close> block.\<close>

definition errorMessage :: "js_error \<Rightarrow> string" where
  "errorMessage err = (case err of Error msg \<Rightarrow> msg | Thrown v \<Rightarrow> ''Failed to fetch suggestions'')"

definition catchError :: "field \<Rightarrow> js_error \<Rightarrow> ui_state \<Rightarrow> ui_state" where
  "catchError field err st = setSuggestions field [] (setError field (Some (errorMessage err)) st)"

text \<open>
  \<open>fetchSuggestions(path, field)\<close> run from its call to its end, with no other task of
  the event loop touching the state in between.
\<close>

definition fetchSuggestions ::
  "fs_env \<Rightarrow> string list \<Rightarrow> string \<Rightarrow> field \<Rightarrow> ui_state \<Rightarrow> ui_state" where
  "fetchSuggestions env remotes path field st =
     (let st1 = setError field None (setIsLoading field True st);
          slash = slashSymbol (platform env);
          tried =
            (if path = [] then Inr (setSuggestions field (map remoteItem remotes) st1)
             else if \<not> isRemotePath path then
               (let (cleanedPath, localEntries) =
                      (case readDir env path of
                         Inr entries \<Rightarrow> (path, entries)
                       | Inl err \<Rightarrow>
                           (let cleaned = parentPath path slash in
                            case readDir env cleaned of
                              Inr entries \<Rightarrow> (cleaned, entries)
                            | Inl err2 \<Rightarrow> (cleaned, [])))
                in Inr (localDone slash field cleanedPath localEntries st1))
             else
               (case splitRemote path of
                  Inl err \<Rightarrow> Inl err
                | Inr (remote, remotePath) \<Rightarrow>
                    (case listPath env remote remotePath listOptions of
                       Inl err \<Rightarrow> Inl err
                     | Inr items \<Rightarrow> Inr (remoteDone field remote items st1))))
      in setIsLoading field False
           (case tried of Inr st2 \<Rightarrow> st2 | Inl err \<Rightarrow> catchError field err st1))"

subsection \<open>fetchSuggestions as a task of the event loop\<close>

text \<open>
  The function suspends at each \<open>await\<close>; other tasks run until the awaited promise
  settles. A suspended call is described by the call it awaits, with the values the
  continuation needs: the first \<open>readDir(path)\<close>, the retry \<open>readDir(cleanedPath)\<close>, or
  \<open>listPath(remote, remotePath)\<close>.
\<close>

datatype pending =
    AwaitReadDir string
  | AwaitReadDirRetry string
  | AwaitListPath string string

datatype response =
    ReadDirResult "js_error + dir_entry list"
  | ListPathResult "js_error + list_item list"

text \<open>From the call to the first \<open>await\<close> (or to the end, when none is reached).\<close>

definition fetchBegin ::
  "string \<Rightarrow> string list \<Rightarrow> string \<Rightarrow> field \<Rightarrow> ui_state \<Rightarrow> ui_state \<times> pending option" where
  "fetchBegin plat remotes path field st =
     (let st1 = setError field None (setIsLoading field True st) in
      if path = [] then
        (setIsLoading field False (setSuggestions field (map remoteItem remotes) st1), None)
      else if \<not> isRemotePath path then (st1, Some (AwaitReadDir path))
      else
        (case splitRemote path of
           Inl err \<Rightarrow> (setIsLoading field False (catchError field err st1), None)
         | Inr (remote, remotePath) \<Rightarrow> (st1, Some (AwaitListPath remote remotePath))))"

text \<open>
  From a settled promise to the next \<open>await\<close> or to the end. A response that does not
  answer the awaited call leaves the task suspended.
\<close>

fun fetchResume ::
  "string \<Rightarrow> field \<Rightarrow> pending \<Rightarrow> response \<Rightarrow> ui_state \<Rightarrow> ui_state \<times> pending option" where
  "fetchResume plat field (AwaitReadDir path) (ReadDirResult (Inr entries)) st =
     (setIsLoading field False (localDone (slashSymbol plat) field path entries st), None)"
| "fetchResume plat field (AwaitReadDir path) (ReadDirResult (Inl err)) st =
     (st, Some (AwaitReadDirRetry (parentPath path (slashSymbol plat))))"
| "fetchResume plat field (AwaitReadDirRetry cleaned) (ReadDirResult (Inr entries)) st =
     (setIsLoading field False (localDone (slashSymbol plat) field cleaned entries st), None)"
| "fetchResume plat field (AwaitReadDirRetry cleaned) (ReadDirResult (Inl err)) st =
     (setIsLoading field False (localDone (slashSymbol plat) field cleaned [] st), None)"
| "fetchResume plat field (AwaitListPath remote remotePath) (ListPathResult (Inr items)) st =
     (setIsLoading field False (remoteDone field remote items st), None)"
| "fetchResume plat field (AwaitListPath remote remotePath) (ListPathResult (Inl err)) st =
     (setIsLoading field False (catchError field err st), None)"
| "fetchResume plat field p r st = (st, Some p)"

text \<open>The environment's answer to an awaited call.\<close>

fun answer :: "fs_env \<Rightarrow> pending \<Rightarrow> response" where
  "answer env (AwaitReadDir path) = ReadDirResult (readDir env path)"
| "answer env (AwaitReadDirRetry cleaned) = ReadDirResult (readDir env cleaned)"
| "answer env (AwaitListPath remote remotePath) =
     ListPathResult (listPath env remote remotePath listOptions)"

text \<open>A task run to its end with nothing in between: at most two awaits.\<close>

definition runAlone :: "fs_env \<Rightarrow> field \<Rightarrow> ui_state \<times> pending option \<Rightarrow> ui_state" where
  "runAlone env field task =
     (case task of
        (st, None) \<Rightarrow> st
      | (st, Some p) \<Rightarrow>
          (case fetchResume (platform env) field p (answer env p) st of
             (st2, None) \<Rightarrow> st2
           | (st2, Some p2) \<Rightarrow> fst (fetchResume (platform env) field p2 (answer env p2) st2)))"

text \<open>
  A task fed the responses to its successive awaits, with nothing in between; responses
  left over when the task has ended are dropped.
\<close>

fun fetchRun ::
  "string \<Rightarrow> field \<Rightarrow> ui_state \<times> pending option \<Rightarrow> response list \<Rightarrow> ui_state \<times> pending option" where
  "fetchRun plat field (st, Some p) (r # rs) = fetchRun plat field (fetchResume plat field p r st) rs"
| "fetchRun plat field (st, None) (r # rs) = (st, None)"
| "fetchRun plat field task [] = task"

text \<open>
  Two calls for the same field on one event loop, the older one started first. Each
  event settles the promise one of them awaits; the configuration holds the state and
  what each call awaits (\<open>None\<close> once it has ended). An event for a call that has ended
  changes nothing.
\<close>

datatype event = Older response | Newer response

fun olderResponses :: "event list \<Rightarrow> response list" where
  "olderResponses [] = []"
| "olderResponses (Older r # es) = r # olderResponses es"
| "olderResponses (Newer r # es) = olderResponses es"

fun raceRun ::
  "string \<Rightarrow> field \<Rightarrow> ui_state \<times> pending option \<times> pending option \<Rightarrow> event list \<Rightarrow>
     ui_state \<times> pending option \<times> pending option" where
  "raceRun plat field cfg [] = cfg"
| "raceRun plat field (st, Some p, q) (Older r # es) =
     raceRun plat field
       (fst (fetchResume plat field p r st), snd (fetchResume plat field p r st), q) es"
| "raceRun plat field (st, None, q) (Older r # es) = raceRun plat field (st, None, q) es"
| "raceRun plat field (st, p, Some q) (Newer r # es) =
     raceRun plat field
       (fst (fetchResume plat field q r st), p, snd (fetchResume plat field q r st)) es"
| "raceRun plat field (st, p, None) (Newer r # es) = raceRun plat field (st, p, None) es"

subsection \<open>handleBrowse\<close>

definition browseFailed :: "field \<Rightarrow> ui_state \<Rightarrow> ui_state" where
  "browseFailed field st = setError field (Some ''Failed to open folder picker'') st"

definition handleBrowse :: "dialog_env \<Rightarrow> field \<Rightarrow> ui_state \<Rightarrow> ui_state" where
  "handleBrowse env field st =
     (case lockWindows env of
        Inl err \<Rightarrow> browseFailed field st
      | Inr u \<Rightarrow>
          (let st1 = lockAcquired st in
           case openDialog env (if field = Source then sourcePath st1 else destPath st1) of
             Inl err \<Rightarrow> browseFailed field st1
           | Inr selected \<Rightarrow>
               (case unlockWindows env of
                  Inl err \<Rightarrow> browseFailed field st1
                | Inr u2 \<Rightarrow>
                    (let st2 = lockReleased st1 in
                     case selected of
                       None \<Rightarrow> st2
                     | Some s \<Rightarrow>
                         if s = [] then st2
                         else if field = Source then setSourcePath s st2
                         else setDestPath s st2))))"

text \<open>What the spec calls a field's state.\<close>

definition rawText :: "ui_state \<Rightarrow> field \<Rightarrow> string" where
  "rawText st field = (if field = Source then sourcePath st else destPath st)"

definition fieldState ::
  "ui_state \<Rightarrow> field \<Rightarrow> string \<times> suggestion list \<times> bool \<times> string option" where
  "fieldState st field = (rawText st field, suggestions st field, isLoading st field, error st field)"


section \<open>Concrete inputs\<close>

text \<open>A mount point that stays busy, with the user's answers to the successive dialogs.\<close>

definition busyOutput :: cmd_output where
  "busyOutput = \<lparr>code = 1, stdout = [], stderr = ''umount: /mnt/x: target is busy.''\<rparr>"

definition alwaysBusy :: "(nat \<Rightarrow> bool) \<Rightarrow> unmount_env" where
  "alwaysBusy answers = \<lparr>execute = (\<lambda>n prog args. busyOutput), ask = (\<lambda>m question. answers m)\<rparr>"

text \<open>A path that is not mounted and whose name contains \<open>busy\<close>; the user declines.\<close>

definition busyboxOutput :: cmd_output where
  "busyboxOutput =
     \<lparr>code = 1, stdout = [], stderr = ''umount: /mnt/busybox: not currently mounted''\<rparr>"

definition busyboxEnv :: unmount_env where
  "busyboxEnv = \<lparr>execute = (\<lambda>n prog args. busyboxOutput), ask = (\<lambda>m question. False)\<rparr>"


text \<open>The component's state when it is mounted.\<close>

definition initialState :: ui_state where
  "initialState =
     \<lparr>sourcePath = [], destPath = [], suggestions = (\<lambda>f. []), isLoading = (\<lambda>f. False),
      error = (\<lambda>f. None), windowsLocked = False\<rparr>"

text \<open>A file system where no directory can be read and no remote listed.\<close>

definition failingFs :: fs_env where
  "failingFs =
     \<lparr>platform = ''linux'',
      readDir = (\<lambda>p. Inl (Thrown ''No such file or directory'')),
      listPath = (\<lambda>remote p opts. Inl (Error ''directory not found''))\<rparr>"

text \<open>A file system whose only directory is \<open>/tmp\<close>, holding a file, a link and a directory.\<close>

definition tmpEntries :: "dir_entry list" where
  "tmpEntries =
     [\<lparr>name = ''foo.txt'', isDirectory = False, isSymlink = False\<rparr>,
      \<lparr>name = ''link'', isDirectory = False, isSymlink = True\<rparr>,
      \<lparr>name = ''sub'', isDirectory = True, isSymlink = False\<rparr>]"

definition tmpFs :: fs_env where
  "tmpFs =
     \<lparr>platform = ''linux'',
      readDir = (\<lambda>p. if p = ''/tmp'' then Inr tmpEntries else Inl (Thrown ''Not a directory'')),
      listPath = (\<lambda>remote p opts. Inl (Error ''directory not found''))\<rparr>"

text \<open>A folder picker that cannot be opened, while the window lock works.\<close>

definition pickerFails :: dialog_env where
  "pickerFails =
     \<lparr>lockWindows = Inr (), openDialog = (\<lambda>p. Inl (Thrown ''dialog unavailable'')),
      unlockWindows = Inr ()\<rparr>"

text \<open>
  Two resolutions of the source field: the one for \<open>a:/\<close> is started first, the one for
  \<open>b:/\<close> second; the second listing arrives first.
\<close>

definition olderResponse :: response where
  "olderResponse = ListPathResult (Inr [\<lparr>item_IsDir = True, item_Path = ''old''\<rparr>])"

definition newerResponse :: response where
  "newerResponse = ListPathResult (Inr [\<lparr>item_IsDir = True, item_Path = ''new''\<rparr>])"

definition raceN :: "ui_state \<times> pending option" where
  "raceN = fetchBegin ''linux'' [] ''a:/'' Source initialState"

definition raceN1 :: "ui_state \<times> pending option" where
  "raceN1 = fetchBegin ''linux'' [] ''b:/'' Source (fst raceN)"

definition raceN1Done :: "ui_state \<times> pending option" where
  "raceN1Done = fetchResume ''linux'' Source (AwaitListPath ''b'' []) newerResponse (fst raceN1)"

definition raceNDone :: "ui_state \<times> pending option" where
  "raceNDone = fetchResume ''linux'' Source (AwaitListPath ''a'' []) olderResponse (fst raceN1Done)"


text \<open>
  Two more resolutions of the source field: the one for the file \<open>/tmp/foo.txt\<close> is
  started first and its first listing fails; the one for the empty path is started
  second and ends at once; the listing of the parent arrives last.
\<close>

definition retryFailure :: response where
  "retryFailure = ReadDirResult (Inl (Thrown ''Not a directory''))"

definition retryListing :: response where
  "retryListing = ReadDirResult (Inr tmpEntries)"

definition retryN :: "ui_state \<times> pending option" where
  "retryN = fetchRun ''linux'' Source
     (fetchBegin ''linux'' [''gdrive''] ''/tmp/foo.txt'' Source initialState) [retryFailure]"

definition retryN1 :: "ui_state \<times> pending option" where
  "retryN1 = fetchBegin ''linux'' [''gdrive''] [] Source (fst retryN)"

definition retryNDone :: "ui_state \<times> pending option" where
  "retryNDone = fetchResume ''linux'' Source (AwaitReadDirRetry ''/tmp'') retryListing (fst retryN1)"


section \<open>Theorems about unmount\<close>

lemma unmount_exit_zero:
  assumes "code (execute env n ''umount'' (umountArgs mountPoint force)) = 0"
  shows "unmount env n m mountPoint force = Some (Inr (), Suc n, m)"
  using assms by (subst unmount.simps) (simp add: Let_def)

text \<open>
  C2, as the code has it: a forced call whose command exits non-zero with \<open>busy\<close> in its
  lower-cased stderr shows the confirmation dialog again. When the user declines, the
  call rejects with the error carrying that stderr and no further command is executed;
  when the user confirms, the call goes on as a further forced call, which executes
  the command again.
\<close>

theorem unmount_forced_busy:
  assumes "code (execute env n ''umount'' (umountArgs mountPoint True)) \<noteq> 0"
    and "includes_js (toLowerCase (stderr (execute env n ''umount'' (umountArgs mountPoint True)))) ''busy''"
  shows "unmount env n m mountPoint True =
           (if ask env m busyQuestion then unmount env (Suc n) (Suc m) mountPoint True
            else Some (Inl (Error (stderr (execute env n ''umount'' (umountArgs mountPoint True)))),
                       Suc n, Suc m))"
  using assms by (subst unmount.simps) (simp add: Let_def)

theorem unmount_forced_busy_witness:
  "code (execute (alwaysBusy (\<lambda>m. m = 0)) 1 ''umount'' (umountArgs ''/mnt/x'' True)) \<noteq> 0
   \<and> includes_js (toLowerCase (stderr (execute (alwaysBusy (\<lambda>m. m = 0)) 1 ''umount''
         (umountArgs ''/mnt/x'' True)))) ''busy''
   \<and> unmount (alwaysBusy (\<lambda>m. m = 0)) 1 1 ''/mnt/x'' True =
       Some (Inl (Error ''umount: /mnt/x: target is busy.''), 2, 2)"
  using unmount_forced_busy [of "alwaysBusy (\<lambda>m. m = 0)" 1 "''/mnt/x''" 1]
  by (simp add: alwaysBusy_def busyOutput_def toLowerCase_def toLowerChar_def)

text \<open>
  C2, as stated, fails: a forced call on a mount point that stays busy, with a user who
  confirms the first dialog and declines the second, executes the command twice and
  shows two dialogs before it rejects.
\<close>

theorem unmount_forced_busy_retries:
  "code (execute (alwaysBusy (\<lambda>m. m = 0)) 0 ''umount'' (umountArgs ''/mnt/x'' True)) \<noteq> 0
   \<and> includes_js (toLowerCase (stderr (execute (alwaysBusy (\<lambda>m. m = 0)) 0 ''umount''
         (umountArgs ''/mnt/x'' True)))) ''busy''
   \<and> unmount (alwaysBusy (\<lambda>m. m = 0)) 0 0 ''/mnt/x'' True =
       Some (Inl (Error ''umount: /mnt/x: target is busy.''), 2, 2)"
  by code_simp

text \<open>
  C6 at a failing input: the command reports \<open>not currently mounted\<close> for a mount point
  whose name contains \<open>busy\<close>. The busy test comes first, the dialog is shown, and with a
  user who declines the call rejects, for either value of the force flag.
\<close>

theorem unmount_not_mounted_busy_path:
  "code (execute busyboxEnv 0 ''umount'' (umountArgs ''/mnt/busybox'' False)) \<noteq> 0
   \<and> includes_js (toLowerCase (stderr (execute busyboxEnv 0 ''umount''
         (umountArgs ''/mnt/busybox'' False)))) ''not currently mounted''
   \<and> unmount busyboxEnv 0 0 ''/mnt/busybox'' False =
       Some (Inl (Error ''umount: /mnt/busybox: not currently mounted''), 1, 1)
   \<and> unmount busyboxEnv 0 0 ''/mnt/busybox'' True =
       Some (Inl (Error ''umount: /mnt/busybox: not currently mounted''), 1, 1)"
  by code_simp

text \<open>Away from such inputs the call resolves, whatever the force flag.\<close>

lemma unmount_not_mounted_without_busy:
  assumes "code (execute env n ''umount'' (umountArgs mountPoint force)) \<noteq> 0"
    and "\<not> includes_js (toLowerCase (stderr (execute env n ''umount'' (umountArgs mountPoint force)))) ''busy''"
    and "includes_js (toLowerCase (stderr (execute env n ''umount'' (umountArgs mountPoint force)))) ''not currently mounted''"
  shows "unmount env n m mountPoint force = Some (Inr (), Suc n, m)"
  using assms by (subst unmount.simps) (simp add: Let_def)

text \<open>
  C7: when the command exits non-zero with \<open>busy\<close> in its lower-cased stderr and the
  user declines the confirmation, the call rejects with the error carrying that stderr,
  and exactly one command has been executed (and one dialog shown) by the call.
\<close>

theorem unmount_busy_declined:
  assumes "code (execute env n ''umount'' (umountArgs mountPoint force)) \<noteq> 0"
    and "includes_js (toLowerCase (stderr (execute env n ''umount'' (umountArgs mountPoint force)))) ''busy''"
    and "\<not> ask env m busyQuestion"
  shows "unmount env n m mountPoint force =
           Some (Inl (Error (stderr (execute env n ''umount'' (umountArgs mountPoint force)))),
                 n + 1, m + 1)"
  using assms by (subst unmount.simps) (simp add: Let_def)

theorem unmount_busy_declined_witness:
  "code (execute (alwaysBusy (\<lambda>m. False)) 0 ''umount'' (umountArgs ''/mnt/x'' False)) \<noteq> 0
   \<and> includes_js (toLowerCase (stderr (execute (alwaysBusy (\<lambda>m. False)) 0 ''umount''
         (umountArgs ''/mnt/x'' False)))) ''busy''
   \<and> \<not> ask (alwaysBusy (\<lambda>m. False)) 0 busyQuestion
   \<and> unmount (alwaysBusy (\<lambda>m. False)) 0 0 ''/mnt/x'' False =
       Some (Inl (Error ''umount: /mnt/x: target is busy.''), 1, 1)"
  using unmount_busy_declined [of "alwaysBusy (\<lambda>m. False)" 0 "''/mnt/x''" False 0]
  by (simp add: alwaysBusy_def busyOutput_def toLowerCase_def toLowerChar_def)

section \<open>Lemmas about split and join\<close>

lemma splitAcc_Nil: "splitAcc sep cur [] = [cur]"
  by (subst splitAcc.simps) simp

lemma splitAcc_not_Nil: "splitAcc sep cur s \<noteq> []"
  by (induction sep cur s rule: splitAcc.induct) (subst splitAcc.simps, simp)

lemma join_js_Cons: "xs \<noteq> [] \<Longrightarrow> join_js (x # xs) sep = x @ sep @ join_js xs sep"
  by (cases xs) simp_all

lemma join_splitAcc: "sep \<noteq> [] \<Longrightarrow> join_js (splitAcc sep cur s) sep = cur @ s"
proof (induction sep cur s rule: splitAcc.induct)
  case (1 sep cur s)
  show ?case
  proof (cases "s = []")
    case True
    then show ?thesis by (simp add: splitAcc_Nil)
  next
    case False
    show ?thesis
    proof (cases "prefix sep s")
      case True
      then have s: "s = sep @ drop (length sep) s"
        by (auto simp add: prefix_def)
      have "join_js (splitAcc sep cur s) sep =
            join_js (cur # splitAcc sep [] (drop (length sep) s)) sep"
        using False True "1.prems" by (subst splitAcc.simps) simp
      also have "\<dots> = cur @ sep @ join_js (splitAcc sep [] (drop (length sep) s)) sep"
        by (simp add: join_js_Cons splitAcc_not_Nil)
      also have "\<dots> = cur @ sep @ drop (length sep) s"
        using "1.IH"(1) [OF False] True "1.prems" by simp
      finally show ?thesis using s by simp
    next
      case no: False
      have "join_js (splitAcc sep cur s) sep = join_js (splitAcc sep (cur @ [hd s]) (tl s)) sep"
        using False no by (subst splitAcc.simps) simp
      also have "\<dots> = (cur @ [hd s]) @ tl s"
        using "1.IH"(2) [OF False] no "1.prems" by simp
      finally show ?thesis using False by simp
    qed
  qed
qed

lemma splitAcc_no_separator:
  "\<not> includes_js s sep \<Longrightarrow> splitAcc sep cur s = [cur @ s]"
proof (induction s arbitrary: cur)
  case Nil
  then show ?case by (simp add: splitAcc_Nil)
next
  case (Cons x xs)
  then have "splitAcc sep cur (x # xs) = splitAcc sep (cur @ [x]) xs"
    by (subst splitAcc.simps) simp
  with Cons show ?case by simp
qed

lemma splitAcc_first_separator:
  assumes "sep \<noteq> []"
    and "\<forall>i<length r. \<not> prefix sep (drop i (r @ sep @ rest))"
  shows "splitAcc sep cur (r @ sep @ rest) = (cur @ r) # splitAcc sep [] rest"
  using assms(2)
proof (induction r arbitrary: cur)
  case Nil
  show ?case using assms(1) by (subst splitAcc.simps) simp
next
  case (Cons x r)
  from Cons.prems have "\<not> prefix sep ((x # r) @ sep @ rest)"
    by (metis drop0 length_greater_0_conv list.distinct(1))
  then have "splitAcc sep cur ((x # r) @ sep @ rest) = splitAcc sep (cur @ [x]) (r @ sep @ rest)"
    by (subst splitAcc.simps) simp
  moreover have "\<forall>i<length r. \<not> prefix sep (drop i (r @ sep @ rest))"
  proof (intro allI impI)
    fix i assume "i < length r"
    then have "Suc i < length (x # r)" by simp
    with Cons.prems have "\<not> prefix sep (drop (Suc i) ((x # r) @ sep @ rest))" by blast
    then show "\<not> prefix sep (drop i (r @ sep @ rest))" by simp
  qed
  ultimately show ?case using Cons.IH by simp
qed

text \<open>
  Truncation at the last separator: on both platforms the separator is one code unit,
  and the parent of \<open>a + separator + b\<close>, with no separator in \<open>b\<close>, is \<open>a\<close>; a path
  with no separator at all has the empty parent.
\<close>

lemma splitAcc_last_char:
  "c \<notin> set b \<Longrightarrow> splitAcc [c] cur (a @ [c] @ b) = splitAcc [c] cur a @ [b]"
proof (induction a arbitrary: cur)
  case Nil
  have "\<not> includes_js b [c]"
    using Nil by (induction b) auto
  then have "splitAcc [c] [] b = [b]"
    using splitAcc_no_separator [of b "[c]" "[]"] by simp
  then show ?case
    by (subst splitAcc.simps) (simp add: splitAcc_Nil)
next
  case (Cons x a)
  show ?case
  proof (cases "x = c")
    case True
    then show ?thesis
      using Cons
      by (subst splitAcc.simps, subst (2) splitAcc.simps) simp
  next
    case False
    then show ?thesis
      using Cons
      by (subst splitAcc.simps, subst (2) splitAcc.simps) simp
  qed
qed

lemma parentPath_last_separator:
  assumes "c \<notin> set b"
  shows "parentPath (a @ [c] @ b) [c] = a"
proof -
  have "split_js (a @ [c] @ b) [c] = splitAcc [c] [] a @ [b]"
    using assms by (simp add: split_js_def splitAcc_last_char del: append.simps)
  then have "parentPath (a @ [c] @ b) [c] = join_js (splitAcc [c] [] a) [c]"
    by (simp add: parentPath_def del: append.simps)
  then show ?thesis by (simp add: join_splitAcc)
qed

lemma parentPath_no_separator:
  assumes "c \<notin> set b"
  shows "parentPath b [c] = []"
proof -
  have "\<not> includes_js b [c]"
    using assms by (induction b) auto
  then show ?thesis
    by (simp add: parentPath_def split_js_def splitAcc_no_separator)
qed

text \<open>
  The remote branch on a path whose first \<open>:/\<close> starts after \<open>remote\<close>: the remote is the
  text before it, the error is thrown exactly when that text is empty, and the remote
  path is made of the pieces of the rest joined by \<open>/\<close>.
\<close>

lemma splitRemote_first_separator:
  assumes "\<forall>i<length remote. \<not> prefix '':/'' (drop i (remote @ '':/'' @ rest))"
  shows "splitRemote (remote @ '':/'' @ rest) =
           (if remote = [] then Inl (Error ''Invalid remote path format'')
            else Inr (remote,
              let remotePath = join_js (split_js rest '':/'') ''/'' in
              if endsWith remotePath ''/'' then butlast remotePath else remotePath))"
proof -
  have "split_js (remote @ '':/'' @ rest) '':/'' = remote # split_js rest '':/''"
    using splitAcc_first_separator [of "'':/''" remote rest "[]"] assms
    by (simp add: split_js_def)
  then show ?thesis
    by (simp add: splitRemote_def Let_def)
qed

text \<open>With a single \<open>:/\<close> in the path, the remote path is the rest itself.\<close>

lemma no_separator_before:
  "\<not> includes_js r '':/'' \<Longrightarrow> i < length r \<Longrightarrow> \<not> prefix '':/'' (drop i (r @ '':/'' @ rest))"
proof (induction r arbitrary: i)
  case Nil
  then show ?case by simp
next
  case (Cons x r)
  show ?case
  proof (cases i)
    case 0
    show ?thesis
    proof (cases r)
      case Nil
      then show ?thesis using 0 by simp
    next
      case (Cons y ys)
      then show ?thesis using 0 Cons.prems(1) by auto
    qed
  next
    case (Suc j)
    then show ?thesis using Cons by simp
  qed
qed

lemma splitRemote_single_separator:
  assumes "\<not> isRemotePath remote" and "\<not> isRemotePath rest"
  shows "splitRemote (remote @ '':/'' @ rest) =
           (if remote = [] then Inl (Error ''Invalid remote path format'')
            else Inr (remote, if endsWith rest ''/'' then butlast rest else rest))"
proof -
  have first: "\<forall>i<length remote. \<not> prefix '':/'' (drop i (remote @ '':/'' @ rest))"
    using assms(1) no_separator_before [of remote _ rest] by (simp add: isRemotePath_def)
  have rest: "join_js (split_js rest '':/'') ''/'' = rest"
    using assms(2) by (simp add: isRemotePath_def split_js_def splitAcc_no_separator)
  show ?thesis
    unfolding splitRemote_first_separator [OF first] Let_def rest ..
qed


section \<open>Theorems about fetchSuggestions and handleBrowse\<close>

lemmas setters = setSuggestions_def setIsLoading_def setError_def setSourcePath_def setDestPath_def
  lockAcquired_def lockReleased_def

text \<open>The function run alone is its steps run one after the other.\<close>

lemma fetchSuggestions_steps:
  "fetchSuggestions env remotes path field st =
     runAlone env field (fetchBegin (platform env) remotes path field st)"
  by (simp add: fetchSuggestions_def fetchBegin_def runAlone_def Let_def
      split: sum.splits prod.splits)

text \<open>
  C9: resolving the empty path gives one suggestion per known remote, in the order of
  \<open>remotes\<close>, each a directory whose name and path are the remote followed by \<open>:/\<close>;
  the field's error stays cleared, loading ends, and no \<open>await\<close> is reached.
\<close>

theorem fetchSuggestions_empty_path:
  "suggestions (fetchSuggestions env remotes [] field st) field =
     map (\<lambda>remote. \<lparr>IsDir = True, Name = remote @ '':/'', Path = remote @ '':/''\<rparr>) remotes
   \<and> error (fetchSuggestions env remotes [] field st) field = None
   \<and> isLoading (fetchSuggestions env remotes [] field st) field = False
   \<and> snd (fetchBegin plat remotes [] field st) = None"
  by (simp add: fetchSuggestions_def fetchBegin_def Let_def setters remoteItem_def)

text \<open>
  C8: for a non-empty local path, whether the directory listed is the path itself or,
  after the first \<open>readDir\<close> failed, its parent, the suggestions are the entries that
  are not symbolic links, in order, each with the path made of the listed directory,
  the separator unless the directory already ends with it, and the entry's name.
\<close>

theorem local_listing_entries:
  assumes "path \<noteq> []" and "\<not> isRemotePath path"
    and "slash = slashSymbol (platform env)"
    and "(readDir env path = Inr entries \<and> dir = path)
         \<or> (readDir env path = Inl err \<and> dir = parentPath path slash
              \<and> readDir env dir = Inr entries)"
  shows "suggestions (fetchSuggestions env remotes path field st) field =
           map (\<lambda>entry. \<lparr>IsDir = isDirectory entry, Name = name entry,
                          Path = dir @ (if endsWith dir slash then [] else slash) @ name entry\<rparr>)
             (filter (\<lambda>entry. \<not> isSymlink entry) entries)"
  using assms
  by (auto simp add: fetchSuggestions_def Let_def localDone_def localSuggestion_def setters)

theorem local_listing_entries_witness:
  "''/tmp/foo.txt'' \<noteq> [] \<and> \<not> isRemotePath ''/tmp/foo.txt''
   \<and> readDir tmpFs ''/tmp/foo.txt'' = Inl (Thrown ''Not a directory'')
   \<and> parentPath ''/tmp/foo.txt'' (slashSymbol (platform tmpFs)) = ''/tmp''
   \<and> readDir tmpFs ''/tmp'' = Inr tmpEntries
   \<and> suggestions (fetchSuggestions tmpFs [] ''/tmp/foo.txt'' Source initialState) Source =
       [\<lparr>IsDir = False, Name = ''foo.txt'', Path = ''/tmp/foo.txt''\<rparr>,
        \<lparr>IsDir = True, Name = ''sub'', Path = ''/tmp/sub''\<rparr>]"
proof -
  have remote: "\<not> isRemotePath ''/tmp/foo.txt''"
    by code_simp
  have first: "readDir tmpFs ''/tmp/foo.txt'' = Inl (Thrown ''Not a directory'')"
    by (simp add: tmpFs_def)
  have parent: "parentPath ''/tmp/foo.txt'' (slashSymbol (platform tmpFs)) = ''/tmp''"
    by code_simp
  have second: "readDir tmpFs ''/tmp'' = Inr tmpEntries"
    by (simp add: tmpFs_def tmpEntries_def)
  have ends: "\<not> endsWith ''/tmp'' ''/''"
    by code_simp
  have slash: "slashSymbol (platform tmpFs) = ''/''"
    by code_simp
  show ?thesis
    using local_listing_entries [of "''/tmp/foo.txt''" "slashSymbol (platform tmpFs)" tmpFs
        tmpEntries "''/tmp''" "Thrown ''Not a directory''" "[]" Source initialState]
      remote first parent second ends slash
    by (simp add: tmpEntries_def)
qed





text \<open>
  C5 at a failing input: in \<open>a:/b:/c\<close> the text after the first \<open>:/\<close> is \<open>b:/c\<close>, but
  the remote path handed to \<open>listPath\<close> is \<open>b/c\<close>, since the pieces after the remote are
  joined by \<open>/\<close>.
\<close>

theorem splitRemote_second_separator:
  "isRemotePath ''a:/b:/c''
   \<and> ''a:/b:/c'' = ''a'' @ '':/'' @ ''b:/c'' \<and> \<not> isRemotePath ''a''
   \<and> splitRemote ''a:/b:/c'' = Inr (''a'', ''b/c'')
   \<and> snd (fetchBegin ''linux'' [] ''a:/b:/c'' Source initialState) =
       Some (AwaitListPath ''a'' ''b/c'')"
  by code_simp

text \<open>
  C3 at a failing input: the lock is acquired, the folder picker rejects, and the
  \<open>catch\<close> block sets the field's error without releasing the lock, which is still
  held when \<open>handleBrowse\<close> ends.
\<close>

theorem handleBrowse_picker_failure_keeps_lock:
  "lockWindows pickerFails = Inr ()
   \<and> openDialog pickerFails (sourcePath initialState) = Inl (Thrown ''dialog unavailable'')
   \<and> windowsLocked initialState = False
   \<and> windowsLocked (handleBrowse pickerFails Source initialState) = True
   \<and> error (handleBrowse pickerFails Source initialState) Source =
       Some ''Failed to open folder picker''"
  by code_simp

text \<open>When the picker resolves, with a folder or cancelled, the lock is released.\<close>

lemma handleBrowse_lock_released:
  assumes "lockWindows denv = Inr ()"
    and "openDialog denv (rawText st field) = Inr selected"
    and "unlockWindows denv = Inr ()"
  shows "windowsLocked (handleBrowse denv field st) = False"
  using assms
  by (cases field)
    (simp_all add: handleBrowse_def Let_def rawText_def setters split: option.splits)

text \<open>Frame lemmas: every step writes the slots of its own field only.\<close>

lemma fieldState_setters:
  "other \<noteq> field \<Longrightarrow> fieldState (setSuggestions field v st) other = fieldState st other"
  "other \<noteq> field \<Longrightarrow> fieldState (setIsLoading field b st) other = fieldState st other"
  "other \<noteq> field \<Longrightarrow> fieldState (setError field e st) other = fieldState st other"
  "fieldState (lockAcquired st) other = fieldState st other"
  "fieldState (lockReleased st) other = fieldState st other"
  by (simp_all add: fieldState_def rawText_def setters)

lemma fieldState_setPath:
  "other \<noteq> field \<Longrightarrow>
     fieldState (if field = Source then setSourcePath s st else setDestPath s st) other =
     fieldState st other"
  by (cases field; cases other) (simp_all add: fieldState_def rawText_def setters)

lemma fieldState_done:
  "other \<noteq> field \<Longrightarrow> fieldState (localDone slash field dir entries st) other = fieldState st other"
  "other \<noteq> field \<Longrightarrow> fieldState (remoteDone field remote items st) other = fieldState st other"
  "other \<noteq> field \<Longrightarrow> fieldState (catchError field err st) other = fieldState st other"
  "other \<noteq> field \<Longrightarrow> fieldState (browseFailed field st) other = fieldState st other"
  by (simp_all add: localDone_def remoteDone_def catchError_def browseFailed_def Let_def
      fieldState_setters)

lemma fetchBegin_other_field:
  "other \<noteq> field \<Longrightarrow>
     fieldState (fst (fetchBegin plat remotes path field st)) other = fieldState st other"
  by (simp add: fetchBegin_def Let_def fieldState_setters fieldState_done split: sum.splits prod.splits)

lemma fetchResume_other_field:
  "other \<noteq> field \<Longrightarrow>
     fieldState (fst (fetchResume plat field p r st)) other = fieldState st other"
  by (cases "(plat, field, p, r, st)" rule: fetchResume.cases)
    (simp_all add: fieldState_setters fieldState_done)

lemma runAlone_other_field:
  "other \<noteq> field \<Longrightarrow> fieldState (runAlone env field task) other = fieldState (fst task) other"
  unfolding runAlone_def
  by (auto split: option.splits prod.splits
      dest!: arg_cong [where f = fst]
      simp add: fetchResume_other_field)

lemma handleBrowse_other_field:
  "other \<noteq> field \<Longrightarrow> fieldState (handleBrowse denv field st) other = fieldState st other"
  by (cases field; cases other)
    (simp_all add: handleBrowse_def Let_def browseFailed_def fieldState_def rawText_def setters
      split: sum.splits option.splits)

text \<open>
  C10: a resolution for one field, run alone or step by step between other tasks, and a
  browse for one field leave the other field's raw text, suggestions, loading flag and
  error as they were, whatever the listings and the picker answer.
\<close>

theorem other_field_unchanged:
  assumes "other \<noteq> field"
  shows "fieldState (fetchSuggestions env remotes path field st) other = fieldState st other
       \<and> fieldState (fst (fetchBegin plat remotes path field st)) other = fieldState st other
       \<and> fieldState (fst (fetchResume plat field p r st)) other = fieldState st other
       \<and> fieldState (handleBrowse denv field st) other = fieldState st other"
proof -
  have "fieldState (fetchSuggestions env remotes path field st) other =
        fieldState (fst (fetchBegin (platform env) remotes path field st)) other"
    using assms
    by (simp add: fetchSuggestions_steps runAlone_other_field)
  with assms show ?thesis
    by (simp add: fetchBegin_other_field fetchResume_other_field handleBrowse_other_field)
qed

theorem other_field_unchanged_witness:
  "Dest \<noteq> Source
   \<and> fieldState (fetchSuggestions failingFs [''gdrive''] ''gdrive:/x'' Source initialState) Dest
       = fieldState initialState Dest
   \<and> fieldState (fst (fetchBegin ''linux'' [''gdrive''] ''gdrive:/x'' Source initialState)) Dest
       = fieldState initialState Dest
   \<and> fieldState (fst (fetchResume ''linux'' Source (AwaitListPath ''gdrive'' ''x'')
         (ListPathResult (Inl (Error ''directory not found''))) initialState)) Dest
       = fieldState initialState Dest
   \<and> fieldState (handleBrowse pickerFails Source initialState) Dest = fieldState initialState Dest"
  using other_field_unchanged [of Dest Source failingFs "[''gdrive'']" "''gdrive:/x''" initialState
      "''linux''" "AwaitListPath ''gdrive'' ''x''" "ListPathResult (Inl (Error ''directory not found''))"
      pickerFails]
  by simp

text \<open>What a completing step writes into its field does not depend on the state it finds.\<close>

lemma fetchResume_suggestions_any_state:
  "suggestions (fst (fetchResume plat field p r st)) field =
     (if snd (fetchResume plat field p r st) = None
      then suggestions (fst (fetchResume plat field p r st2)) field
      else suggestions st field)"
  by (cases "(plat, field, p, r, st)" rule: fetchResume.cases)
    (simp_all add: localDone_def remoteDone_def catchError_def Let_def setters)

lemma fetchResume_completes_any_state:
  "snd (fetchResume plat field p r st) = snd (fetchResume plat field p r st2)"
  by (cases "(plat, field, p, r, st)" rule: fetchResume.cases) simp_all

text \<open>
  What a call awaits next depends on the responses it was given, not on the state it
  finds, so the older call goes through the same awaits in a race as when run alone.
\<close>

lemma fetchRun_None: "fetchRun plat field (st, None) rs = (st, None)"
  by (cases rs) simp_all

lemma fetchRun_pending_any_state:
  "snd (fetchRun plat field (st, q) rs) = snd (fetchRun plat field (st2, q) rs)"
proof (induction rs arbitrary: st st2 q)
  case Nil
  then show ?case by simp
next
  case (Cons r rs)
  show ?case
  proof (cases q)
    case None
    then show ?thesis by simp
  next
    case (Some p)
    have "snd (fetchResume plat field p r st) = snd (fetchResume plat field p r st2)"
      by (rule fetchResume_completes_any_state)
    then show ?thesis
      using Some Cons.IH [of "fst (fetchResume plat field p r st)" "snd (fetchResume plat field p r st)"
          "fst (fetchResume plat field p r st2)"]
      by (metis fetchRun.simps(1) prod.collapse)
  qed
qed

lemma fetchRun_append:
  "fetchRun plat field task (rs @ rs2) = fetchRun plat field (fetchRun plat field task rs) rs2"
proof (induction rs arbitrary: task)
  case Nil
  then show ?case by simp
next
  case (Cons r rs)
  obtain st q where task: "task = (st, q)" by (cases task)
  show ?case
  proof (cases q)
    case None
    then show ?thesis using task by (simp add: fetchRun_None)
  next
    case (Some p)
    then show ?thesis using task Cons.IH by simp
  qed
qed

lemma raceRun_older_pending:
  "fst (snd (raceRun plat field (st, p, q) es)) =
     snd (fetchRun plat field (st2, p) (olderResponses es))"
proof (induction es arbitrary: st st2 p q)
  case Nil
  then show ?case by simp
next
  case (Cons e es)
  show ?case
  proof (cases e)
    case (Older r)
    show ?thesis
    proof (cases p)
      case None
      then show ?thesis using Older Cons.IH [of st None q st2] by (simp add: fetchRun_None)
    next
      case (Some a)
      have "snd (fetchResume plat field a r st) = snd (fetchResume plat field a r st2)"
        by (rule fetchResume_completes_any_state)
      then show ?thesis
        using Older Some
          Cons.IH [of "fst (fetchResume plat field a r st)" "snd (fetchResume plat field a r st)" q
            "fst (fetchResume plat field a r st2)"]
        by (metis fetchRun.simps(1) olderResponses.simps(2) prod.collapse raceRun.simps(2))
    qed
  next
    case (Newer r)
    show ?thesis
    proof (cases q)
      case None
      then show ?thesis using Newer Cons.IH [of st p None st2] by simp
    next
      case (Some b)
      then show ?thesis
        using Newer Cons.IH [of "fst (fetchResume plat field b r st)" p
            "snd (fetchResume plat field b r st)" st2]
        by simp
    qed
  qed
qed

text \<open>
  C1, as the code has it: resolution \<open>N\<close> is started for a field and, after any number
  of its awaits, is still suspended; resolution \<open>N+1\<close> is started for the same field;
  after any interleaving of their responses \<open>N+1\<close> has ended (at once or after its own
  awaits) and \<open>N\<close> is still suspended; then \<open>N\<close> ends. The field's suggestions are
  then those of \<open>N\<close>, the same as if \<open>N\<close> had run alone on the responses it was given:
  completions are applied in the order they arrive, and no sequence number is kept.
\<close>

theorem last_completion_wins:
  assumes "fetchRun plat field (fetchBegin plat remotes pathN field st0) rs = (stA, Some pA)"
    and "raceRun plat field
           (fst (fetchBegin plat remotes pathN1 field stA), Some pA,
            snd (fetchBegin plat remotes pathN1 field stA)) es = (st3, Some pB, None)"
    and "fetchResume plat field pB r st3 = (st4, None)"
  shows "snd (fetchRun plat field (fetchBegin plat remotes pathN field st0)
                (rs @ olderResponses es @ [r])) = None
       \<and> suggestions st4 field =
           suggestions (fst (fetchRun plat field (fetchBegin plat remotes pathN field st0)
                               (rs @ olderResponses es @ [r]))) field
       \<and> isLoading st4 field = False"
proof -
  let ?alone = "fetchRun plat field (stA, Some pA) (olderResponses es)"
  have "fst (snd (raceRun plat field
           (fst (fetchBegin plat remotes pathN1 field stA), Some pA,
            snd (fetchBegin plat remotes pathN1 field stA)) es)) = snd ?alone"
    by (rule raceRun_older_pending)
  then have pend: "?alone = (fst ?alone, Some pB)"
    using assms(2) by (simp add: prod_eq_iff)
  have run: "fetchRun plat field (fetchBegin plat remotes pathN field st0)
               (rs @ olderResponses es @ [r]) = fetchResume plat field pB r (fst ?alone)"
    using assms(1) pend
    by (metis fetchRun.simps(1) fetchRun.simps(3) fetchRun_append)
  have fin: "snd (fetchResume plat field pB r (fst ?alone)) = None"
    using fetchResume_completes_any_state [of plat field pB r "fst ?alone" st3] assms(3) by simp
  have "suggestions (fst (fetchResume plat field pB r st3)) field =
        suggestions (fst (fetchResume plat field pB r (fst ?alone))) field"
    using fetchResume_suggestions_any_state [of plat field pB r st3 "fst ?alone"] assms(3) by simp
  then have sugg: "suggestions st4 field =
      suggestions (fst (fetchResume plat field pB r (fst ?alone))) field"
    using assms(3) by simp
  have "isLoading st4 field = False"
    using assms(3)
    by (cases "(plat, field, pB, r, st3)" rule: fetchResume.cases)
      (auto simp add: localDone_def remoteDone_def catchError_def Let_def setters)
  with run fin sugg show ?thesis by simp
qed

theorem last_completion_wins_witness:
  "fetchRun ''linux'' Source (fetchBegin ''linux'' [''gdrive''] ''/tmp/foo.txt'' Source initialState)
       [retryFailure] = (fst retryN, Some (AwaitReadDirRetry ''/tmp''))
   \<and> raceRun ''linux'' Source
         (fst (fetchBegin ''linux'' [''gdrive''] [] Source (fst retryN)),
          Some (AwaitReadDirRetry ''/tmp''),
          snd (fetchBegin ''linux'' [''gdrive''] [] Source (fst retryN))) [] =
       (fst retryN1, Some (AwaitReadDirRetry ''/tmp''), None)
   \<and> fetchResume ''linux'' Source (AwaitReadDirRetry ''/tmp'') retryListing (fst retryN1) =
       (fst retryNDone, None)
   \<and> suggestions (fst retryN1) Source =
       [\<lparr>IsDir = True, Name = ''gdrive:/'', Path = ''gdrive:/''\<rparr>]
   \<and> suggestions (fst retryNDone) Source =
       [\<lparr>IsDir = False, Name = ''foo.txt'', Path = ''/tmp/foo.txt''\<rparr>,
        \<lparr>IsDir = True, Name = ''sub'', Path = ''/tmp/sub''\<rparr>]
   \<and> snd (fetchRun ''linux'' Source
         (fetchBegin ''linux'' [''gdrive''] ''/tmp/foo.txt'' Source initialState)
         [retryFailure, retryListing]) = None
   \<and> suggestions (fst retryNDone) Source =
       suggestions (fst (fetchRun ''linux'' Source
         (fetchBegin ''linux'' [''gdrive''] ''/tmp/foo.txt'' Source initialState)
         [retryFailure, retryListing])) Source
   \<and> isLoading (fst retryNDone) Source = False"
proof -
  have pendN: "snd retryN = Some (AwaitReadDirRetry ''/tmp'')"
    by code_simp
  have n: "fetchRun ''linux'' Source
             (fetchBegin ''linux'' [''gdrive''] ''/tmp/foo.txt'' Source initialState) [retryFailure] =
           (fst retryN, Some (AwaitReadDirRetry ''/tmp''))"
    using pendN by (simp add: retryN_def prod_eq_iff)
  have pendN1: "snd (fetchBegin ''linux'' [''gdrive''] [] Source (fst retryN)) = None"
    by (simp add: fetchBegin_def)
  have n1: "raceRun ''linux'' Source
              (fst (fetchBegin ''linux'' [''gdrive''] [] Source (fst retryN)),
               Some (AwaitReadDirRetry ''/tmp''),
               snd (fetchBegin ''linux'' [''gdrive''] [] Source (fst retryN))) [] =
            (fst retryN1, Some (AwaitReadDirRetry ''/tmp''), None)"
    using pendN1 by (simp add: retryN1_def)
  have fin: "fetchResume ''linux'' Source (AwaitReadDirRetry ''/tmp'') retryListing (fst retryN1) =
               (fst retryNDone, None)"
    by (simp add: retryNDone_def retryListing_def)
  have newer: "suggestions (fst retryN1) Source =
                 [\<lparr>IsDir = True, Name = ''gdrive:/'', Path = ''gdrive:/''\<rparr>]"
    by (simp add: retryN1_def fetchBegin_def remoteItem_def setters)
  have older: "suggestions (fst retryNDone) Source =
                 [\<lparr>IsDir = False, Name = ''foo.txt'', Path = ''/tmp/foo.txt''\<rparr>,
                  \<lparr>IsDir = True, Name = ''sub'', Path = ''/tmp/sub''\<rparr>]"
    by code_simp
  show ?thesis
    using last_completion_wins [OF n n1 fin] n n1 fin newer older by simp
qed

text \<open>
  C1, as stated, fails: with \<open>a:/\<close> started first, \<open>b:/\<close> started second and the listing
  of \<open>b:/\<close> arriving first, the source field shows the listing of \<open>a:/\<close> after both have
  completed.
\<close>

theorem stale_completion_overwrites:
  "snd raceN = Some (AwaitListPath ''a'' [])
   \<and> snd raceN1 = Some (AwaitListPath ''b'' [])
   \<and> snd raceN1Done = None
   \<and> snd raceNDone = None
   \<and> suggestions (fst raceN1Done) Source = [\<lparr>IsDir = True, Name = ''new'', Path = ''b:/new''\<rparr>]
   \<and> suggestions (fst raceNDone) Source = [\<lparr>IsDir = True, Name = ''old'', Path = ''a:/old''\<rparr>]"
  by code_simp

end
